theory Spec2Isabelle
  imports Complex_Main "HOL-Library.Word" "HOL-Library.AList"
begin

section \<open>Constants of App.tsx\<close>

definition SCAN_COOLDOWN_DURATION :: int where "SCAN_COOLDOWN_DURATION = 3000"
definition SCAN_HISTORY_TTL :: int where "SCAN_HISTORY_TTL = 10000"
definition MAX_RECENT_SCANS :: nat where "MAX_RECENT_SCANS = 20"
definition MAX_UNIQUE_RESULTS :: nat where "MAX_UNIQUE_RESULTS = 50"
definition SCAN_INTERVAL_MIN :: int where "SCAN_INTERVAL_MIN = 100"
definition SCAN_INTERVAL_MAX :: int where "SCAN_INTERVAL_MAX = 500"
definition SCAN_INTERVAL_DEFAULT :: int where "SCAN_INTERVAL_DEFAULT = 200"
definition GUIDE_TOLERANCE :: real where "GUIDE_TOLERANCE = 1 / 10"

section \<open>Data model\<close>

text \<open>
  A JavaScript string is a sequence of UTF-16 code units. The fingerprint (the key of
  both maps) is an ASCII string, kept as a HOL \<open>string\<close>. Timestamps are the integer
  milliseconds of \<open>Date.now()\<close> and \<open>Date.getTime()\<close>.
\<close>

type_synonym jsstring = "16 word list"

datatype js_error = URIError

record UniqueQRResult =
  id_qr :: string
  text_qr :: jsstring
  firstSeen :: int
  lastSeen :: int
  count :: nat

datatype GuideState = Waiting | Scanning | Success | Error

text \<open>
  A JavaScript \<open>Map\<close> keeps its entries in insertion order: it is an association list
  with distinct keys. \<open>Map.set\<close> replaces the value of a present key in place and
  appends an absent key (\<open>AList.update\<close>), \<open>Map.delete\<close> removes the key's entry
  (\<open>AList.delete\<close>), \<open>Map.get\<close> is \<open>map_of\<close> and \<open>Map.size\<close> the length.
\<close>

type_synonym ('k, 'v) jsmap = "('k \<times> 'v) list"

text \<open>The React state of the \<open>App\<close> component (the \<open>useState\<close> cells).\<close>

record app_state =
  isScanning :: bool
  uniqueResults :: "(string, UniqueQRResult) jsmap"
  isInitialized :: bool
  guideState :: GuideState
  lastScanTime :: int
  scanInterval :: int
  focusGuideOnly :: bool
  recentScans :: "(string, int) jsmap"

definition initial_state :: app_state where
  "initial_state =
     \<lparr> isScanning = False, uniqueResults = [], isInitialized = False,
       guideState = Waiting, lastScanTime = 0, scanInterval = SCAN_INTERVAL_DEFAULT,
       focusGuideOnly = False, recentScans = [] \<rparr>"

section \<open>The fingerprint: btoa(encodeURIComponent(text)).replace(/=/g, '')\<close>

text \<open>
  \<open>encodeURIComponent\<close> (ECMA-262, Encode with the unreserved set of URI components):
  a code unit of the unreserved set (letters, digits and \<open>- _ . ! ~ * ' ( )\<close>) is copied;
  any other code point is written as the percent-escaped octets of its UTF-8 encoding; an
  unpaired surrogate raises URIError.
\<close>

definition uriUnreserved :: "nat \<Rightarrow> bool" where
  "uriUnreserved n \<longleftrightarrow>
     (65 \<le> n \<and> n \<le> 90) \<or> (97 \<le> n \<and> n \<le> 122) \<or> (48 \<le> n \<and> n \<le> 57) \<or>
     n = 45 \<or> n = 95 \<or> n = 46 \<or> n = 33 \<or> n = 126 \<or> n = 42 \<or> n = 39 \<or> n = 40 \<or> n = 41"

definition isLeadingSurrogate :: "nat \<Rightarrow> bool" where
  "isLeadingSurrogate n \<longleftrightarrow> 55296 \<le> n \<and> n \<le> 56319"

definition isTrailingSurrogate :: "nat \<Rightarrow> bool" where
  "isTrailingSurrogate n \<longleftrightarrow> 56320 \<le> n \<and> n \<le> 57343"

definition UTF16SurrogatePairToCodePoint :: "nat \<Rightarrow> nat \<Rightarrow> nat" where
  "UTF16SurrogatePairToCodePoint lead trail = (lead - 55296) * 1024 + (trail - 56320) + 65536"

definition utf8Octets :: "nat \<Rightarrow> nat list" where
  "utf8Octets cp =
     (if cp < 128 then [cp]
      else if cp < 2048 then [192 + cp div 64, 128 + cp mod 64]
      else if cp < 65536 then [224 + cp div 4096, 128 + (cp div 64) mod 64, 128 + cp mod 64]
      else [240 + cp div 262144, 128 + (cp div 4096) mod 64, 128 + (cp div 64) mod 64,
            128 + cp mod 64])"

definition hexDigit :: "nat \<Rightarrow> char" where
  "hexDigit n = ''0123456789ABCDEF'' ! n"

definition percentOctet :: "nat \<Rightarrow> string" where
  "percentOctet b = [CHR ''%'', hexDigit (b div 16), hexDigit (b mod 16)]"

definition percentEncode :: "nat \<Rightarrow> string" where
  "percentEncode cp = concat (map percentOctet (utf8Octets cp))"

fun encodeURIComponent :: "jsstring \<Rightarrow> js_error + string" where
  "encodeURIComponent [] = Inr []"
| "encodeURIComponent (c # cs) =
     (if uriUnreserved (unat c) then
        (case encodeURIComponent cs of Inl e \<Rightarrow> Inl e
         | Inr r \<Rightarrow> Inr (char_of (unat c) # r))
      else if isLeadingSurrogate (unat c) then
        (case cs of [] \<Rightarrow> Inl URIError
         | d # ds \<Rightarrow>
             if isTrailingSurrogate (unat d) then
               (case encodeURIComponent ds of Inl e \<Rightarrow> Inl e
                | Inr r \<Rightarrow>
                    Inr (percentEncode (UTF16SurrogatePairToCodePoint (unat c) (unat d)) @ r))
             else Inl URIError)
      else if isTrailingSurrogate (unat c) then Inl URIError
      else
        (case encodeURIComponent cs of Inl e \<Rightarrow> Inl e
         | Inr r \<Rightarrow> Inr (percentEncode (unat c) @ r)))"

text \<open>
  \<open>btoa\<close>: base64 of the string's characters read as bytes, padded with \<open>=\<close> to a
  multiple of four characters. (It raises on a character above U+00FF; the output of
  \<open>encodeURIComponent\<close> is ASCII, which the type \<open>string\<close> already says.)
\<close>

definition base64Char :: "nat \<Rightarrow> char" where
  "base64Char n =
     ''ABCDEFGHIJKLMNOPQRSTUVWXYZabcdefghijklmnopqrstuvwxyz0123456789+/'' ! n"

fun base64 :: "nat list \<Rightarrow> string" where
  "base64 [] = []"
| "base64 [a] = [base64Char (a div 4), base64Char ((a mod 4) * 16), CHR ''='', CHR ''='']"
| "base64 [a, b] =
     [base64Char (a div 4), base64Char ((a mod 4) * 16 + b div 16),
      base64Char ((b mod 16) * 4), CHR ''='']"
| "base64 (a # b # c # rest) =
     [base64Char (a div 4), base64Char ((a mod 4) * 16 + b div 16),
      base64Char ((b mod 16) * 4 + c div 64), base64Char (c mod 64)] @ base64 rest"

definition btoa :: "string \<Rightarrow> string" where
  "btoa s = base64 (map of_char s)"

definition fingerprint :: "jsstring \<Rightarrow> js_error + string" where
  "fingerprint txt =
     (case encodeURIComponent txt of Inl e \<Rightarrow> Inl e
      | Inr s \<Rightarrow> Inr (filter (\<lambda>ch. ch \<noteq> CHR ''='') (btoa s)))"

section \<open>addQRCode: cooldown filter and result aggregator\<close>

text \<open>
  The updater passed to \<open>setRecentScans\<close>: drop the entries older than the history TTL
  and record the new scan (\<open>recordScan\<close>, the value of \<open>newMap\<close> before the size test);
  when the table is over its bound, delete the entry with the smallest timestamp (the
  first one of the stable ascending sort).
\<close>

definition recordScan :: "string \<Rightarrow> int \<Rightarrow> (string, int) jsmap \<Rightarrow> (string, int) jsmap" where
  "recordScan hash now prev =
     AList.update hash now (filter (\<lambda>(key, time). \<not> (now - time > SCAN_HISTORY_TTL)) prev)"

definition recentScansUpdater :: "string \<Rightarrow> int \<Rightarrow> (string, int) jsmap \<Rightarrow> (string, int) jsmap" where
  "recentScansUpdater hash now prev =
     (let newMap = recordScan hash now prev
      in if length newMap > MAX_RECENT_SCANS then
           (case sort_key snd newMap of
              [] \<Rightarrow> newMap
            | (oldestKey, oldestTime) # others \<Rightarrow> AList.delete oldestKey newMap)
         else newMap)"

text \<open>
  The updater passed to \<open>setUniqueResults\<close>: bump the entry of a known fingerprint or
  append a new one (\<open>upsertResult\<close>, the value of \<open>newMap\<close> before the size test), then,
  when the map is over its bound, keep the \<open>MAX_UNIQUE_RESULTS\<close> entries with the largest
  \<open>lastSeen\<close> (stable descending sort, then \<open>slice\<close>). \<open>nowDate\<close> is the reading of
  \<open>new Date()\<close> inside the updater.
\<close>

definition upsertResult ::
  "string \<Rightarrow> jsstring \<Rightarrow> int \<Rightarrow> (string, UniqueQRResult) jsmap \<Rightarrow> (string, UniqueQRResult) jsmap" where
  "upsertResult hash txt nowDate prev =
     (case map_of prev hash of
        Some existing \<Rightarrow>
          AList.update hash (existing\<lparr>lastSeen := nowDate, count := count existing + 1\<rparr>) prev
      | None \<Rightarrow>
          AList.update hash
            \<lparr>id_qr = hash, text_qr = txt, firstSeen = nowDate, lastSeen = nowDate, count = 1\<rparr>
            prev)"

definition uniqueResultsUpdater ::
  "string \<Rightarrow> jsstring \<Rightarrow> int \<Rightarrow> (string, UniqueQRResult) jsmap \<Rightarrow> (string, UniqueQRResult) jsmap" where
  "uniqueResultsUpdater hash txt nowDate prev =
     (let newMap = upsertResult hash txt nowDate prev
      in if length newMap > MAX_UNIQUE_RESULTS then
           take MAX_UNIQUE_RESULTS (sort_key (\<lambda>e. - lastSeen (snd e)) newMap)
         else newMap)"

text \<open>
  \<open>addQRCode\<close> is a \<open>useCallback\<close> closure: the cooldown check reads the \<open>recentScans\<close>
  of the render that created the callback (the first argument), while both updaters act
  on the latest state. \<open>now\<close> is the reading of \<open>Date.now()\<close>. The JavaScript test
  \<open>lastScanTime && ...\<close> is false for \<open>undefined\<close> (no entry) and for the number 0.
  The result is the returned flag and the new state, or the error raised by the
  fingerprint, which leaves the state as it was.
\<close>

definition addQRCode ::
  "(string, int) jsmap \<Rightarrow> jsstring \<Rightarrow> int \<Rightarrow> int \<Rightarrow> app_state \<Rightarrow> js_error + (bool \<times> app_state)" where
  "addQRCode closureRecentScans txt now nowDate st =
     (case fingerprint txt of
        Inl e \<Rightarrow> Inl e
      | Inr hash \<Rightarrow>
          (case map_of closureRecentScans hash of
             Some lastScanTime' \<Rightarrow>
               if lastScanTime' \<noteq> 0 \<and> now - lastScanTime' < SCAN_COOLDOWN_DURATION then
                 Inr (False, st)
               else
                 Inr (True, st\<lparr>recentScans := recentScansUpdater hash now (recentScans st),
                               uniqueResults := uniqueResultsUpdater hash txt nowDate (uniqueResults st)\<rparr>)
           | None \<Rightarrow>
               Inr (True, st\<lparr>recentScans := recentScansUpdater hash now (recentScans st),
                             uniqueResults := uniqueResultsUpdater hash txt nowDate (uniqueResults st)\<rparr>)))"

text \<open>\<open>resetList\<close>: both maps are replaced by empty ones.\<close>

definition resetList :: "app_state \<Rightarrow> app_state" where
  "resetList st = st\<lparr>uniqueResults := [], recentScans := []\<rparr>"

text \<open>
  The periodic memory cleanup (every \<open>MEMORY_CLEANUP_INTERVAL\<close>): the cooldown table keeps
  the entries younger than the history TTL.
\<close>

definition memoryCleanup :: "int \<Rightarrow> app_state \<Rightarrow> app_state" where
  "memoryCleanup now st =
     st\<lparr>recentScans := filter (\<lambda>(key, time). now - time < SCAN_HISTORY_TTL) (recentScans st)\<rparr>"

section \<open>GuideFrame.tsx: the guide region and the containment test\<close>

text \<open>JavaScript numbers that measure pixels and durations are idealised as reals.\<close>

record GuideRegion =
  top_g :: real
  left_g :: real
  width_g :: real
  height_g :: real
  center_g :: "real \<times> real"

record QRBounds =
  x_b :: real
  y_b :: real
  width_b :: real
  height_b :: real

definition calculateGuideSize :: "real \<Rightarrow> real \<Rightarrow> GuideRegion" where
  "calculateGuideSize containerWidth containerHeight =
     (let ratio = 352 / 252;
          width0 = containerWidth * (6 / 10);
          height0 = width0 * ratio;
          width1 = (if height0 > containerHeight * (6 / 10)
                    then containerHeight * (6 / 10) / ratio else width0);
          width = max 200 (min 400 width1);
          height = width * ratio;
          left = (containerWidth - width) / 2;
          top = (containerHeight - height) / 2
      in \<lparr>top_g = top, left_g = left, width_g = width, height_g = height,
           center_g = (left + width / 2, top + height / 2)\<rparr>)"

definition isQRInGuide :: "QRBounds \<Rightarrow> GuideRegion \<Rightarrow> bool" where
  "isQRInGuide qrBounds guide =
     (let qrCenterX = x_b qrBounds + width_b qrBounds / 2;
          qrCenterY = y_b qrBounds + height_b qrBounds / 2;
          tolerance = width_g guide * GUIDE_TOLERANCE
      in qrCenterX \<ge> left_g guide - tolerance \<and>
         qrCenterX \<le> left_g guide + width_g guide + tolerance \<and>
         qrCenterY \<ge> top_g guide - tolerance \<and>
         qrCenterY \<le> top_g guide + height_g guide + tolerance)"

section \<open>scanQRCodes: one scan cycle\<close>

record Point =
  x_pt :: real
  y_pt :: real

record Position =
  topLeft :: Point
  topRight :: Point
  bottomLeft :: Point
  bottomRight :: Point

record ReadResult =
  text_rr :: jsstring
  position :: "Position option"

text \<open>
  What the \<open>try\<close> block can catch: an \<open>Error\<close> object with its message, or any other
  thrown value. The timeout side of \<open>Promise.race\<close> rejects with
  \<open>new Error('readBarcodes timeout')\<close>.
\<close>

datatype thrown = JSError string | JSOther

datatype decode_outcome = Resolved "ReadResult list" | Rejected thrown

definition readBarcodesTimeout :: thrown where
  "readBarcodesTimeout = JSError ''readBarcodes timeout''"

text \<open>
  Callbacks the cycle registers: the bodies of its \<open>setTimeout\<close> closures, and the
  re-entry into \<open>scanQRCodes\<close> through \<open>requestAnimationFrame\<close>.
\<close>

datatype callback = SetGuideStateCb GuideState | SetScanIntervalCb int | RescheduleCb

datatype effect = SetTimeout callback int | RequestAnimationFrame

definition runCallback :: "callback \<Rightarrow> app_state \<Rightarrow> app_state" where
  "runCallback cb st =
     (case cb of
        SetGuideStateCb g \<Rightarrow> st\<lparr>guideState := g\<rparr>
      | SetScanIntervalCb n \<Rightarrow> st\<lparr>scanInterval := n\<rparr>
      | RescheduleCb \<Rightarrow> st)"

text \<open>
  The environment of one cycle: what the DOM, the decoder and the clock answer.
  \<open>clock k\<close> is the pair of readings (\<open>Date.now()\<close>, \<open>new Date()\<close>) of the \<open>k\<close>-th call
  of \<open>addQRCode\<close> in the cycle; \<open>nowCycle\<close> is the cycle's own \<open>Date.now()\<close> and
  \<open>processingTime\<close> the measured duration \<open>endTime - startTime\<close>.
\<close>

record cycle_env =
  videoPresent :: bool
  frameReady :: bool
  videoWidth :: real
  videoHeight :: real
  wrapperSize :: "(real \<times> real) option"
  decodeOutcome :: decode_outcome
  nowCycle :: int
  clock :: "nat \<Rightarrow> int \<times> int"
  processingTime :: real

text \<open>
  The classification of one detection (the body of \<open>scanResults.forEach\<close>): the display
  bounds are built from the corner points, with the centre of the four corners as
  \<open>x\<close> and \<open>y\<close>, and handed to \<open>isQRInGuide\<close>. Without a guide region or a position the
  detection is out of the guide.
\<close>

definition displayBounds :: "cycle_env \<Rightarrow> real \<times> real \<Rightarrow> Position \<Rightarrow> QRBounds" where
  "displayBounds env wrapper points =
     (let videoScaleX = videoWidth env / fst wrapper;
          videoScaleY = videoHeight env / snd wrapper;
          centerX = (x_pt (topLeft points) + x_pt (topRight points) +
                     x_pt (bottomLeft points) + x_pt (bottomRight points)) / 4;
          centerY = (y_pt (topLeft points) + y_pt (topRight points) +
                     y_pt (bottomLeft points) + y_pt (bottomRight points)) / 4
      in \<lparr>x_b = centerX / videoScaleX, y_b = centerY / videoScaleY,
           width_b = \<bar>x_pt (topRight points) - x_pt (topLeft points)\<bar> / videoScaleX,
           height_b = \<bar>y_pt (bottomLeft points) - y_pt (topLeft points)\<bar> / videoScaleY\<rparr>)"

definition inGuide :: "cycle_env \<Rightarrow> ReadResult \<Rightarrow> bool" where
  "inGuide env result =
     (case wrapperSize env of
        None \<Rightarrow> False
      | Some wrapper \<Rightarrow>
          (case position result of
             None \<Rightarrow> False
           | Some points \<Rightarrow>
               isQRInGuide (displayBounds env wrapper points)
                 (calculateGuideSize (fst wrapper) (snd wrapper))))"

definition inGuideResults :: "cycle_env \<Rightarrow> ReadResult list \<Rightarrow> ReadResult list" where
  "inGuideResults env scanResults = filter (inGuide env) scanResults"

definition outGuideResults :: "cycle_env \<Rightarrow> ReadResult list \<Rightarrow> ReadResult list" where
  "outGuideResults env scanResults = filter (\<lambda>r. \<not> inGuide env r) scanResults"

text \<open>
  The loops \<open>for (const result of ...) addQRCode(result.text)\<close>: every call reads the
  cooldown table of the closure; an exception leaves the loop with the changes made so
  far. The flag is \<open>hasNewDetection\<close>.
\<close>

fun submitAll ::
  "(string, int) jsmap \<Rightarrow> (nat \<Rightarrow> int \<times> int) \<Rightarrow> nat \<Rightarrow> ReadResult list \<Rightarrow> bool \<Rightarrow> app_state \<Rightarrow>
   js_error option \<times> bool \<times> app_state" where
  "submitAll closureRecentScans clk k [] hasNewDetection st = (None, hasNewDetection, st)"
| "submitAll closureRecentScans clk k (result # results) hasNewDetection st =
     (case addQRCode closureRecentScans (text_rr result) (fst (clk k)) (snd (clk k)) st of
        Inl e \<Rightarrow> (Some e, hasNewDetection, st)
      | Inr (accepted, st') \<Rightarrow>
          submitAll closureRecentScans clk (Suc k) results (hasNewDetection \<or> accepted) st')"

text \<open>
  The body of the \<open>try\<close> block after the decoder resolved. \<open>snap\<close> is the state of the
  render that created the callback: \<open>lastScanTime\<close>, \<open>guideState\<close> and the cooldown table
  are read from it, while the setters act on the latest state \<open>st\<close>. The result is the
  exception that left the block, if any, the new state and the timeouts registered.
\<close>

definition processResults ::
  "app_state \<Rightarrow> cycle_env \<Rightarrow> ReadResult list \<Rightarrow> app_state \<Rightarrow> js_error option \<times> app_state \<times> effect list" where
  "processResults snap env scanResults st =
     (if length scanResults > 0 then
        (if length (inGuideResults env scanResults) > 0 then
           (case submitAll (recentScans snap) (clock env) 0 (inGuideResults env scanResults) False st of
              (Some e, hasNewDetection, st') \<Rightarrow> (Some e, st', [])
            | (None, hasNewDetection, st') \<Rightarrow>
                if hasNewDetection then
                  (None,
                   st'\<lparr>guideState := Success, lastScanTime := nowCycle env,
                       scanInterval := SCAN_INTERVAL_MAX\<rparr>,
                   [SetTimeout (SetGuideStateCb Scanning) 300,
                    SetTimeout (SetScanIntervalCb SCAN_INTERVAL_DEFAULT) 2000])
                else (None, st', []))
         else if length (outGuideResults env scanResults) > 0 \<and>
                 nowCycle env - lastScanTime snap > 1000 then
           (case submitAll (recentScans snap) (clock env) 0 (outGuideResults env scanResults) False st of
              (err, hasNewDetection, st') \<Rightarrow> (err, st', []))
         else (None, st, []))
      else if guideState snap = Success then (None, st\<lparr>guideState := Scanning\<rparr>, [])
      else (None, st, []))"

text \<open>The \<open>catch\<close> block: a timeout is only logged, anything else shows the error state.\<close>

definition catchBlock :: "thrown \<Rightarrow> app_state \<Rightarrow> app_state \<times> effect list" where
  "catchBlock err st =
     (if err = readBarcodesTimeout then (st, [])
      else (st\<lparr>guideState := Error\<rparr>, [SetTimeout (SetGuideStateCb Scanning) 1000]))"

text \<open>
  \<open>try\<close> and \<open>catch\<close> together. A URIError raised by \<open>addQRCode\<close> is an \<open>Error\<close> object
  whose message is not the timeout's.
\<close>

definition tryCatch :: "app_state \<Rightarrow> cycle_env \<Rightarrow> app_state \<Rightarrow> app_state \<times> effect list" where
  "tryCatch snap env st =
     (case decodeOutcome env of
        Rejected err \<Rightarrow> catchBlock err st
      | Resolved scanResults \<Rightarrow>
          (case processResults snap env scanResults st of
             (None, st', effects) \<Rightarrow> (st', effects)
           | (Some URIError, st', effects) \<Rightarrow>
               (case catchBlock (JSError ''URI malformed'') st' of
                  (st'', effects') \<Rightarrow> (st'', effects @ effects'))))"

text \<open>The interval controller: the updaters passed to \<open>setScanInterval\<close> after the cycle.\<close>

definition adjustInterval :: "real \<Rightarrow> int \<Rightarrow> int" where
  "adjustInterval processingTime' prev =
     (if processingTime' > 100 then min (prev + 50) SCAN_INTERVAL_MAX
      else if processingTime' < 50 then max (prev - 25) SCAN_INTERVAL_MIN
      else prev)"

text \<open>
  One call of \<open>scanQRCodes\<close>: the guards, the \<open>try\<close>/\<open>catch\<close>, the interval controller and
  the scheduling of the next cycle after the closure's \<open>scanInterval\<close>.
\<close>

definition scanQRCodes :: "app_state \<Rightarrow> cycle_env \<Rightarrow> app_state \<Rightarrow> app_state \<times> effect list" where
  "scanQRCodes snap env st =
     (if \<not> videoPresent env \<or> \<not> isInitialized snap \<or> \<not> isScanning snap then (st, [])
      else if \<not> frameReady env then
        (st, if isScanning snap then [RequestAnimationFrame] else [])
      else if \<lfloor>videoWidth env * (6 / 10)\<rfloor> = 0 \<or> \<lfloor>videoHeight env * (6 / 10)\<rfloor> = 0 then
        (st, if isScanning snap then [RequestAnimationFrame] else [])
      else
        (case tryCatch snap env st of
           (st', effects) \<Rightarrow>
             (st'\<lparr>scanInterval := adjustInterval (processingTime env) (scanInterval st')\<rparr>,
              effects @
                (if isScanning snap then [SetTimeout RescheduleCb (scanInterval snap)] else []))))"

text \<open>
  Whether a call of \<open>scanQRCodes\<close> gets past its guards to the \<open>try\<close> block.
\<close>

definition cycleRuns :: "app_state \<Rightarrow> cycle_env \<Rightarrow> bool" where
  "cycleRuns snap env \<longleftrightarrow>
     videoPresent env \<and> isInitialized snap \<and> isScanning snap \<and> frameReady env \<and>
     \<lfloor>videoWidth env * (6 / 10)\<rfloor> \<noteq> 0 \<and> \<lfloor>videoHeight env * (6 / 10)\<rfloor> \<noteq> 0"

section \<open>Drivers: sequences of operations\<close>

text \<open>
  The operations that change the state, for statements about every reachable state: a
  call of \<open>addQRCode\<close> from any closure (an exception leaves the state), a reset, a
  memory cleanup, a scan cycle from any closure, and a timer callback.
\<close>

datatype operation =
    AddQRCode "(string, int) jsmap" jsstring int int
  | ResetList
  | MemoryCleanup int
  | ScanCycle app_state cycle_env
  | TimerFires callback

definition step :: "operation \<Rightarrow> app_state \<Rightarrow> app_state" where
  "step opn st =
     (case opn of
        AddQRCode closureRecentScans txt now nowDate \<Rightarrow>
          (case addQRCode closureRecentScans txt now nowDate st of
             Inl e \<Rightarrow> st
           | Inr (accepted, st') \<Rightarrow> st')
      | ResetList \<Rightarrow> resetList st
      | MemoryCleanup now \<Rightarrow> memoryCleanup now st
      | ScanCycle snap env \<Rightarrow> fst (scanQRCodes snap env st)
      | TimerFires cb \<Rightarrow> runCallback cb st)"

definition run :: "operation list \<Rightarrow> app_state \<Rightarrow> app_state" where
  "run ops st = foldl (\<lambda>s opn. step opn s) st ops"

text \<open>
  \<open>submitAt\<close>: a detection submitted at time \<open>t\<close> (both clock readings) by a callback of
  the current render, as the scenarios of the specification feed the aggregator.
\<close>

definition submitAt :: "jsstring \<Rightarrow> int \<Rightarrow> app_state \<Rightarrow> app_state" where
  "submitAt txt t st = step (AddQRCode (recentScans st) txt t t) st"

section \<open>Invariant and fixtures\<close>

text \<open>
  The invariant of the two maps: keys are distinct (they are \<open>Map\<close>s) and the sizes are
  within their bounds.
\<close>

definition mapsWellFormed :: "app_state \<Rightarrow> bool" where
  "mapsWellFormed st \<longleftrightarrow>
     distinct (map fst (uniqueResults st)) \<and> distinct (map fst (recentScans st)) \<and>
     length (uniqueResults st) \<le> MAX_UNIQUE_RESULTS \<and>
     length (recentScans st) \<le> MAX_RECENT_SCANS"

text \<open>
  Fixtures for the scenarios: \<open>letterCode i\<close> is the one-letter text \<open>A\<close>, ..., \<open>Z\<close>,
  \<open>a\<close>, ... and \<open>distinctScans n\<close> submits the first \<open>n\<close> of them, the \<open>i\<close>-th at time
  \<open>i\<close>, from a closure with an empty cooldown table.
\<close>

definition letterCode :: "nat \<Rightarrow> jsstring" where
  "letterCode i = [of_nat (if i < 26 then 65 + i else 71 + i)]"

definition distinctScans :: "nat \<Rightarrow> operation list" where
  "distinctScans n = map (\<lambda>i. AddQRCode [] (letterCode i) (int i) (int i)) [0..<n]"

text \<open>
  Fixtures for scan cycles: a 300 by 600 container showing a 300 by 600 video (scale 1),
  every clock reading of the cycle equal to \<open>now\<close>; a detection whose corners form an
  axis-parallel square; and the state of a running scan before any detection.
\<close>

definition portraitEnv :: "decode_outcome \<Rightarrow> int \<Rightarrow> cycle_env" where
  "portraitEnv outcome now =
     \<lparr>videoPresent = True, frameReady = True, videoWidth = 300, videoHeight = 600,
      wrapperSize = Some (300, 600), decodeOutcome = outcome, nowCycle = now,
      clock = (\<lambda>k. (now, now)), processingTime = 60\<rparr>"

definition squareAt :: "real \<Rightarrow> real \<Rightarrow> real \<Rightarrow> Position" where
  "squareAt cx cy side =
     \<lparr>topLeft = \<lparr>x_pt = cx - side / 2, y_pt = cy - side / 2\<rparr>,
      topRight = \<lparr>x_pt = cx + side / 2, y_pt = cy - side / 2\<rparr>,
      bottomLeft = \<lparr>x_pt = cx - side / 2, y_pt = cy + side / 2\<rparr>,
      bottomRight = \<lparr>x_pt = cx + side / 2, y_pt = cy + side / 2\<rparr>\<rparr>"

definition scanningState :: app_state where
  "scanningState = initial_state\<lparr>isScanning := True, isInitialized := True, guideState := Scanning\<rparr>"



section \<open>Lists and maps\<close>

lemma sort_key_head_min:
  assumes "sort_key f xs = y # ys"
  shows "y \<in> set xs \<and> (\<forall>x\<in>set xs. f y \<le> f x)"
proof -
  have s: "sorted (map f (sort_key f xs))" by (rule sorted_sort_key)
  have e: "set (sort_key f xs) = set xs" by simp
  from e assms have "y \<in> set xs" by (metis list.set_intros(1))
  moreover have "\<forall>x\<in>set xs. f y \<le> f x"
    using s e assms by auto
  ultimately show ?thesis by simp
qed


lemma length_delete_less:
  "(k, v) \<in> set m \<Longrightarrow> length (AList.delete k m) < length m"
  unfolding AList.delete_eq by (rule length_filter_less[where x = "(k, v)"]) auto

lemma length_update_le: "length (AList.update k v al) \<le> Suc (length al)"
  by (induction al) auto

lemma length_update_ge: "length al \<le> length (AList.update k v al)"
  by (induction al) auto

lemma length_update_present:
  "k \<in> fst ` set al \<Longrightarrow> length (AList.update k v al) = length al"
  by (induction al) auto


lemma distinct_recordScan:
  "distinct (map fst prev) \<Longrightarrow> distinct (map fst (recordScan h now prev))"
  by (simp add: recordScan_def distinct_update distinct_map_filter)

lemma length_recordScan: "length (recordScan h now prev) \<le> Suc (length prev)"
proof -
  have "length (recordScan h now prev)
          \<le> Suc (length (filter (\<lambda>(key, time). \<not> (now - time > SCAN_HISTORY_TTL)) prev))"
    unfolding recordScan_def by (rule length_update_le)
  also have "\<dots> \<le> Suc (length prev)" by simp
  finally show ?thesis .
qed



lemma distinct_recentScansUpdater:
  "distinct (map fst prev) \<Longrightarrow> distinct (map fst (recentScansUpdater h now prev))"
  by (auto simp: recentScansUpdater_def Let_def distinct_recordScan distinct_delete
           split: list.splits)

lemma length_recentScansUpdater:
  assumes "length prev \<le> MAX_RECENT_SCANS"
  shows "length (recentScansUpdater h now prev) \<le> MAX_RECENT_SCANS"
proof (cases "length (recordScan h now prev) > MAX_RECENT_SCANS")
  case False
  then show ?thesis by (simp add: recentScansUpdater_def)
next
  case True
  let ?m = "recordScan h now prev"
  from True have "?m \<noteq> []" by auto
  then obtain k t ys where s: "sort_key snd ?m = (k, t) # ys"
    by (metis length_sort list.exhaust list.size(3) surj_pair True not_less0)
  from sort_key_head_min[OF s] have "(k, t) \<in> set ?m" by simp
  then have "length (AList.delete k ?m) < length ?m" by (rule length_delete_less)
  moreover have "length ?m \<le> Suc MAX_RECENT_SCANS"
    using length_recordScan[of h now prev] assms by simp
  ultimately show ?thesis using True s by (simp add: recentScansUpdater_def)
qed

lemma distinct_upsertResult:
  "distinct (map fst prev) \<Longrightarrow> distinct (map fst (upsertResult h txt d prev))"
  by (simp add: upsertResult_def distinct_update split: option.splits)

lemma distinct_map_fst_take:
  "distinct (map fst xs) \<Longrightarrow> distinct (map fst (take n xs))"
  by (simp add: take_map[symmetric] del: take_map)

lemma distinct_map_fst_sort_key:
  "distinct (map fst xs) \<Longrightarrow> distinct (map fst (sort_key f xs))"
proof -
  assume "distinct (map fst xs)"
  then have "distinct xs" and i: "inj_on fst (set xs)" by (auto simp: distinct_map)
  then show ?thesis by (simp add: distinct_map)
qed

lemma distinct_uniqueResultsUpdater:
  "distinct (map fst prev) \<Longrightarrow> distinct (map fst (uniqueResultsUpdater h txt d prev))"
  by (simp add: uniqueResultsUpdater_def Let_def distinct_upsertResult
                distinct_map_fst_take distinct_map_fst_sort_key)

lemma length_uniqueResultsUpdater:
  "length (uniqueResultsUpdater h txt d prev) \<le> MAX_UNIQUE_RESULTS"
  by (simp add: uniqueResultsUpdater_def Let_def)

section \<open>The invariant is preserved\<close>

lemma addQRCode_cases:
  assumes "addQRCode cl txt now nowDate st = Inr (accepted, st')"
  obtains h where "fingerprint txt = Inr h" "accepted"
      "st' = st\<lparr>recentScans := recentScansUpdater h now (recentScans st),
                 uniqueResults := uniqueResultsUpdater h txt nowDate (uniqueResults st)\<rparr>"
  | "\<not> accepted" "st' = st"
  using assms
  by (auto simp: addQRCode_def split: sum.splits option.splits if_splits)

lemma mapsWellFormed_addQRCode:
  assumes "mapsWellFormed st" "addQRCode cl txt now nowDate st = Inr (accepted, st')"
  shows "mapsWellFormed st'"
  using assms(2)
proof (cases rule: addQRCode_cases)
  case (1 h)
  with assms(1) show ?thesis
    by (simp add: mapsWellFormed_def distinct_recentScansUpdater length_recentScansUpdater
                  distinct_uniqueResultsUpdater length_uniqueResultsUpdater)
next
  case 2
  with assms(1) show ?thesis by simp
qed

lemma mapsWellFormed_submitAll:
  "mapsWellFormed st \<Longrightarrow> submitAll cl clk k rs flag st = (err, flag', st') \<Longrightarrow> mapsWellFormed st'"
proof (induction rs arbitrary: k flag st)
  case Nil
  then show ?case by simp
next
  case (Cons r rs)
  show ?case
  proof (cases "addQRCode cl (text_rr r) (fst (clk k)) (snd (clk k)) st")
    case (Inl e)
    with Cons.prems show ?thesis by simp
  next
    case (Inr p)
    obtain accepted s1 where p: "p = (accepted, s1)" by (cases p)
    from Cons.prems(1) Inr p have "mapsWellFormed s1"
      by (auto intro: mapsWellFormed_addQRCode)
    moreover from Cons.prems(2) Inr p
    have "submitAll cl clk (Suc k) rs (flag \<or> accepted) s1 = (err, flag', st')" by simp
    ultimately show ?thesis by (rule Cons.IH)
  qed
qed

lemma mapsWellFormed_frame:
  "uniqueResults st' = uniqueResults st \<Longrightarrow> recentScans st' = recentScans st \<Longrightarrow>
   mapsWellFormed st' = mapsWellFormed st"
  by (simp add: mapsWellFormed_def)

lemma mapsWellFormed_processResults:
  assumes "mapsWellFormed st" "processResults snap env rs st = (err, st', effs)"
  shows "mapsWellFormed st'"
proof -
  have sub: "\<And>xs e f s. submitAll (recentScans snap) (clock env) 0 xs False st = (e, f, s)
              \<Longrightarrow> mapsWellFormed s"
    using assms(1) mapsWellFormed_submitAll by blast
  show ?thesis
    using assms sub
    by (auto simp: processResults_def mapsWellFormed_frame mapsWellFormed_def
             split: if_splits prod.splits option.splits)
qed

lemma mapsWellFormed_catchBlock:
  "mapsWellFormed st \<Longrightarrow> catchBlock err st = (st', effs) \<Longrightarrow> mapsWellFormed st'"
  by (auto simp: catchBlock_def mapsWellFormed_def split: if_splits)

lemma mapsWellFormed_tryCatch:
  assumes wf: "mapsWellFormed st" and tc: "tryCatch snap env st = (st', effs)"
  shows "mapsWellFormed st'"
proof (cases "decodeOutcome env")
  case (Rejected err)
  with tc have "catchBlock err st = (st', effs)" by (simp add: tryCatch_def)
  with wf show ?thesis by (rule mapsWellFormed_catchBlock)
next
  case (Resolved rs)
  obtain e s1 effs1 where p: "processResults snap env rs st = (e, s1, effs1)"
    by (cases "processResults snap env rs st") auto
  from wf p have wf1: "mapsWellFormed s1" by (rule mapsWellFormed_processResults)
  show ?thesis
  proof (cases e)
    case None
    with tc Resolved p have "st' = s1" by (simp add: tryCatch_def)
    with wf1 show ?thesis by simp
  next
    case (Some err)
    obtain s2 effs2 where c: "catchBlock (JSError ''URI malformed'') s1 = (s2, effs2)"
      by (cases "catchBlock (JSError ''URI malformed'') s1") auto
    from wf1 c have "mapsWellFormed s2" by (rule mapsWellFormed_catchBlock)
    moreover from tc Resolved p Some c have "st' = s2"
      by (cases err) (simp add: tryCatch_def)
    ultimately show ?thesis by simp
  qed
qed

lemma mapsWellFormed_scanQRCodes:
  assumes wf: "mapsWellFormed st" and sc: "scanQRCodes snap env st = (st', effs)"
  shows "mapsWellFormed st'"
proof (cases "cycleRuns snap env")
  case False
  with sc have "st' = st"
    by (auto simp: scanQRCodes_def cycleRuns_def split: if_splits)
  with wf show ?thesis by simp
next
  case True
  obtain s1 effs1 where t: "tryCatch snap env st = (s1, effs1)"
    by (cases "tryCatch snap env st") auto
  from wf t have "mapsWellFormed s1" by (rule mapsWellFormed_tryCatch)
  moreover from True sc t
  have "st' = s1\<lparr>scanInterval := adjustInterval (processingTime env) (scanInterval s1)\<rparr>"
    by (auto simp: scanQRCodes_def cycleRuns_def)
  ultimately show ?thesis by (simp add: mapsWellFormed_def)
qed

lemma mapsWellFormed_step: "mapsWellFormed st \<Longrightarrow> mapsWellFormed (step opn st)"
proof (cases opn)
  case (AddQRCode cl tx now nowDate)
  assume "mapsWellFormed st"
  then show ?thesis using AddQRCode
    by (auto simp: step_def split: sum.splits dest: mapsWellFormed_addQRCode)
next
  case ResetList
  then show ?thesis by (simp add: step_def resetList_def mapsWellFormed_def MAX_UNIQUE_RESULTS_def MAX_RECENT_SCANS_def)
next
  case (MemoryCleanup now)
  assume "mapsWellFormed st"
  then show ?thesis using MemoryCleanup
    by (auto simp: step_def memoryCleanup_def mapsWellFormed_def distinct_map_filter
             intro: le_trans[OF length_filter_le])
next
  case (ScanCycle snap env)
  assume "mapsWellFormed st"
  moreover have "scanQRCodes snap env st = (fst (scanQRCodes snap env st), snd (scanQRCodes snap env st))"
    by simp
  ultimately have "mapsWellFormed (fst (scanQRCodes snap env st))"
    by (rule mapsWellFormed_scanQRCodes)
  then show ?thesis using ScanCycle by (simp add: step_def)
next
  case (TimerFires cb)
  assume "mapsWellFormed st"
  then show ?thesis using TimerFires
    by (auto simp: step_def runCallback_def mapsWellFormed_def split: callback.splits)
qed

lemma mapsWellFormed_run: "mapsWellFormed st \<Longrightarrow> mapsWellFormed (run ops st)"
  unfolding run_def by (induction ops arbitrary: st) (simp_all add: mapsWellFormed_step)

lemma mapsWellFormed_initial: "mapsWellFormed initial_state"
  by (simp add: mapsWellFormed_def initial_state_def)

section \<open>Evaluation of scenarios\<close>

lemmas fingerprint_eval = fingerprint_def uriUnreserved_def isLeadingSurrogate_def
  isTrailingSurrogate_def UTF16SurrogatePairToCodePoint_def utf8Octets_def hexDigit_def
  percentOctet_def percentEncode_def base64Char_def btoa_def

lemmas aggregator_eval = run_def step_def submitAt_def addQRCode_def recentScansUpdater_def
  recordScan_def uniqueResultsUpdater_def upsertResult_def initial_state_def Let_def
  MAX_RECENT_SCANS_def MAX_UNIQUE_RESULTS_def SCAN_HISTORY_TTL_def SCAN_COOLDOWN_DURATION_def
  SCAN_INTERVAL_DEFAULT_def

lemmas geometry_eval = inGuide_def displayBounds_def isQRInGuide_def calculateGuideSize_def
  GUIDE_TOLERANCE_def portraitEnv_def squareAt_def Let_def

lemmas cycle_eval = scanQRCodes_def tryCatch_def processResults_def inGuideResults_def
  outGuideResults_def catchBlock_def adjustInterval_def readBarcodesTimeout_def
  scanningState_def SCAN_INTERVAL_MAX_def SCAN_INTERVAL_MIN_def

lemma upt_numeral_snoc: "[0..<numeral n] = [0..<pred_numeral n] @ [pred_numeral n]"
  by (metis upt_Suc_append zero_le numeral_eq_Suc)

lemma run_snoc: "run (ops @ [opn]) st = step opn (run ops st)"
  by (simp add: run_def)

lemma distinctScans_Suc:
  "distinctScans (Suc n) = distinctScans n @ [AddQRCode [] (letterCode n) (int n) (int n)]"
  by (simp add: distinctScans_def)

lemma addQRCode_no_closure_entry:
  "fingerprint tx = Inr h \<Longrightarrow> map_of cl h = None \<Longrightarrow>
   addQRCode cl tx now d st = Inr (True, step (AddQRCode cl tx now d) st)"
  by (simp add: addQRCode_def step_def)

lemma distinctScans_accept:
  assumes "fingerprint (letterCode n) = Inr h"
  shows "addQRCode [] (letterCode n) (int n) (int n) (run (distinctScans n) initial_state) =
           Inr (True, run (distinctScans (Suc n)) initial_state)"
  using assms by (simp add: distinctScans_Suc run_snoc addQRCode_no_closure_entry)


lemma fifty_one_results:
  "map fst (uniqueResults (run (distinctScans 51) initial_state)) =
     [''eQ'', ''eA'', ''dw'', ''dg'', ''dQ'', ''dA'', ''cw'', ''cg'', ''cQ'', ''cA'', ''bw'',
      ''bg'', ''bQ'', ''bA'', ''aw'', ''ag'', ''aQ'', ''aA'', ''Zw'', ''Zg'', ''ZQ'', ''ZA'',
      ''Yw'', ''Yg'', ''YQ'', ''Wg'', ''WQ'', ''WA'', ''Vw'', ''Vg'', ''VQ'', ''VA'', ''Uw'',
      ''Ug'', ''UQ'', ''UA'', ''Tw'', ''Tg'', ''TQ'', ''TA'', ''Sw'', ''Sg'', ''SQ'', ''SA'',
      ''Rw'', ''Rg'', ''RQ'', ''RA'', ''Qw'', ''Qg'']"
  by (simp add: distinctScans_def letterCode_def upt_numeral_snoc aggregator_eval fingerprint_eval)

section \<open>The cooldown table\<close>





section \<open>The result aggregator\<close>

lemma sorted_last_max:
  "sorted (map f ys) \<Longrightarrow> x \<in> set ys \<Longrightarrow> f x \<le> f (last ys)"
proof (induction ys)
  case Nil
  then show ?case by simp
next
  case (Cons y ys)
  show ?case
  proof (cases "ys = []")
    case True
    with Cons.prems show ?thesis by simp
  next
    case False
    from Cons.prems(1) have s: "sorted (map f ys)" and le: "\<forall>z\<in>set ys. f y \<le> f z" by auto
    from False have l: "last ys \<in> set ys" by simp
    show ?thesis
    proof (cases "x = y")
      case True
      with le l False show ?thesis by simp
    next
      case False
      with Cons.prems(2) have "x \<in> set ys" by simp
      with Cons.IH s \<open>ys \<noteq> []\<close> show ?thesis by simp
    qed
  qed
qed

lemma take_all_but_last:
  assumes "distinct ys" "length ys = Suc n"
  shows "set (take n ys) = set ys - {last ys}"
proof -
  from assms(2) have "ys \<noteq> []" by auto
  then obtain bs l where ys: "ys = bs @ [l]" by (meson rev_exhaust)
  with assms(2) have "take n ys = bs" by simp
  moreover from assms(1) ys have "l \<notin> set bs" by simp
  ultimately show ?thesis using ys by auto
qed

lemma length_upsertResult: "length (upsertResult h tx d prev) \<le> Suc (length prev)"
  by (simp add: upsertResult_def length_update_le split: option.splits)

lemma uniqueResultsUpdater_evicts:
  assumes d: "distinct (map fst prev)"
      and len: "length prev \<le> MAX_UNIQUE_RESULTS"
      and big: "length (upsertResult h tx dt prev) > MAX_UNIQUE_RESULTS"
  shows "\<exists>e\<in>set (upsertResult h tx dt prev).
           (\<forall>x\<in>set (upsertResult h tx dt prev). lastSeen (snd e) \<le> lastSeen (snd x)) \<and>
           set (uniqueResultsUpdater h tx dt prev) = set (upsertResult h tx dt prev) - {e}"
proof -
  let ?m = "upsertResult h tx dt prev"
  let ?f = "\<lambda>e. - lastSeen (snd e)"
  let ?ys = "sort_key ?f ?m"
  have lm: "length ?m = Suc MAX_UNIQUE_RESULTS"
    using length_upsertResult[of h tx dt prev] len big by simp
  have dm: "distinct ?m"
    using distinct_upsertResult[OF d] by (simp add: distinct_map)
  have ly: "length ?ys = Suc MAX_UNIQUE_RESULTS" and dy: "distinct ?ys"
    using lm dm by simp_all
  from lm have "length ?m \<noteq> 0" by simp
  then have ne: "?ys \<noteq> []" by (metis length_0_conv length_sort)
  then have mem: "last ?ys \<in> set ?m" using last_in_set[OF ne] by simp
  have least: "\<forall>x\<in>set ?m. lastSeen (snd (last ?ys)) \<le> lastSeen (snd x)"
  proof
    fix x assume "x \<in> set ?m"
    then have "x \<in> set ?ys" by simp
    with sorted_sort_key[of ?f ?m] have "?f x \<le> ?f (last ?ys)" by (rule sorted_last_max)
    then show "lastSeen (snd (last ?ys)) \<le> lastSeen (snd x)" by simp
  qed
  have "set (take MAX_UNIQUE_RESULTS ?ys) = set ?ys - {last ?ys}"
    using dy ly by (rule take_all_but_last)
  then have "set (uniqueResultsUpdater h tx dt prev) = set ?m - {last ?ys}"
    using big by (simp add: uniqueResultsUpdater_def)
  with mem least show ?thesis by blast
qed

text \<open>
  C3: in every state reached from the initial one the unique-results collection holds at
  most \<open>MAX_UNIQUE_RESULTS\<close> entries, also after a further accepted \<open>addQRCode\<close>; when
  the insertion took the collection over the bound, exactly one entry is removed, it has
  the smallest \<open>lastSeen\<close> of the entries present, and every entry seen later than it is
  kept.
\<close>

theorem uniqueResults_capacity:
  assumes reach: "st = run ops initial_state"
      and acc: "addQRCode closureRecentScans txt now nowDate st = Inr (True, st')"
  shows "length (uniqueResults st) \<le> MAX_UNIQUE_RESULTS \<and>
         length (uniqueResults st') \<le> MAX_UNIQUE_RESULTS \<and>
         (\<exists>hash. fingerprint txt = Inr hash \<and>
            (if length (upsertResult hash txt nowDate (uniqueResults st)) > MAX_UNIQUE_RESULTS then
               \<exists>e\<in>set (upsertResult hash txt nowDate (uniqueResults st)).
                  (\<forall>x\<in>set (upsertResult hash txt nowDate (uniqueResults st)).
                      lastSeen (snd e) \<le> lastSeen (snd x)) \<and>
                  set (uniqueResults st') =
                    set (upsertResult hash txt nowDate (uniqueResults st)) - {e} \<and>
                  (\<forall>x\<in>set (upsertResult hash txt nowDate (uniqueResults st)).
                      lastSeen (snd e) < lastSeen (snd x) \<longrightarrow> x \<in> set (uniqueResults st'))
             else uniqueResults st' = upsertResult hash txt nowDate (uniqueResults st)))"
proof -
  have wf: "mapsWellFormed st"
    unfolding reach by (rule mapsWellFormed_run[OF mapsWellFormed_initial])
  from acc obtain h where h: "fingerprint txt = Inr h"
    and st': "st' = st\<lparr>recentScans := recentScansUpdater h now (recentScans st),
                       uniqueResults := uniqueResultsUpdater h txt nowDate (uniqueResults st)\<rparr>"
    by (cases rule: addQRCode_cases) auto
  let ?m = "upsertResult h txt nowDate (uniqueResults st)"
  have ur: "uniqueResults st' = uniqueResultsUpdater h txt nowDate (uniqueResults st)"
    by (simp add: st')
  have b0: "length (uniqueResults st) \<le> MAX_UNIQUE_RESULTS"
    using wf by (simp add: mapsWellFormed_def)
  have b1: "length (uniqueResults st') \<le> MAX_UNIQUE_RESULTS"
    by (simp add: ur length_uniqueResultsUpdater)
  have evict: "if length ?m > MAX_UNIQUE_RESULTS then
               \<exists>e\<in>set ?m. (\<forall>x\<in>set ?m. lastSeen (snd e) \<le> lastSeen (snd x)) \<and>
                  set (uniqueResults st') = set ?m - {e} \<and>
                  (\<forall>x\<in>set ?m. lastSeen (snd e) < lastSeen (snd x) \<longrightarrow> x \<in> set (uniqueResults st'))
             else uniqueResults st' = ?m"
  proof (cases "length ?m > MAX_UNIQUE_RESULTS")
    case True
    have "distinct (map fst (uniqueResults st))" using wf by (simp add: mapsWellFormed_def)
    from uniqueResultsUpdater_evicts[OF this b0 True]
    obtain e where e: "e \<in> set ?m" "\<forall>x\<in>set ?m. lastSeen (snd e) \<le> lastSeen (snd x)"
      "set (uniqueResults st') = set ?m - {e}" unfolding ur by blast
    from e(3) have "\<forall>x\<in>set ?m. lastSeen (snd e) < lastSeen (snd x) \<longrightarrow> x \<in> set (uniqueResults st')"
      by auto
    with e True show ?thesis by auto
  next
    case False
    then show ?thesis by (simp add: ur uniqueResultsUpdater_def)
  qed
  from h evict have "\<exists>hash. fingerprint txt = Inr hash \<and>
            (if length (upsertResult hash txt nowDate (uniqueResults st)) > MAX_UNIQUE_RESULTS then
               \<exists>e\<in>set (upsertResult hash txt nowDate (uniqueResults st)).
                  (\<forall>x\<in>set (upsertResult hash txt nowDate (uniqueResults st)).
                      lastSeen (snd e) \<le> lastSeen (snd x)) \<and>
                  set (uniqueResults st') =
                    set (upsertResult hash txt nowDate (uniqueResults st)) - {e} \<and>
                  (\<forall>x\<in>set (upsertResult hash txt nowDate (uniqueResults st)).
                      lastSeen (snd e) < lastSeen (snd x) \<longrightarrow> x \<in> set (uniqueResults st'))
             else uniqueResults st' = upsertResult hash txt nowDate (uniqueResults st))"
    by (intro exI[of _ h] conjI)
  with b0 b1 show ?thesis by (intro conjI)
qed

theorem uniqueResults_capacity_witness:
  "addQRCode [] (letterCode 50) 50 50 (run (distinctScans 50) initial_state) =
     Inr (True, run (distinctScans 51) initial_state) \<and>
   length (uniqueResults (run (distinctScans 50) initial_state)) \<le> MAX_UNIQUE_RESULTS \<and>
   length (uniqueResults (run (distinctScans 51) initial_state)) \<le> MAX_UNIQUE_RESULTS \<and>
   fingerprint (letterCode 0) = Inr ''QQ'' \<and>
   ''QQ'' \<notin> set (map fst (uniqueResults (run (distinctScans 51) initial_state))) \<and>
   ''eQ'' \<in> set (map fst (uniqueResults (run (distinctScans 51) initial_state)))"
proof -
  have acc: "addQRCode [] (letterCode 50) 50 50 (run (distinctScans 50) initial_state) =
     Inr (True, run (distinctScans 51) initial_state)"
    using distinctScans_accept[of 50 "''eQ''"] by (simp add: letterCode_def fingerprint_eval)
  note cap = uniqueResults_capacity[OF refl acc]
  have "length (uniqueResults (run (distinctScans 50) initial_state)) \<le> MAX_UNIQUE_RESULTS"
    by (rule cap[THEN conjunct1])
  moreover
  have "length (uniqueResults (run (distinctScans 51) initial_state)) \<le> MAX_UNIQUE_RESULTS"
    by (rule cap[THEN conjunct2, THEN conjunct1])
  moreover have "fingerprint (letterCode 0) = Inr ''QQ''"
    by (simp add: letterCode_def fingerprint_eval)
  moreover have "''QQ'' \<notin> set (map fst (uniqueResults (run (distinctScans 51) initial_state)))"
    and "''eQ'' \<in> set (map fst (uniqueResults (run (distinctScans 51) initial_state)))"
    unfolding fifty_one_results by simp_all
  ultimately show ?thesis using acc by (intro conjI)
qed

section \<open>The cooldown check\<close>

text \<open>
  The check reads the cooldown table of the closure. Where that table holds the entry of
  the fingerprint with a non-zero timestamp inside the window, the call is rejected and
  the state is as before; two submissions from freshly rendered closures give count 1
  inside the window and count 2 beyond it.
\<close>

lemma addQRCode_rejects_in_cooldown:
  assumes "fingerprint tx = Inr h" "map_of cl h = Some t" "t \<noteq> 0"
      and "now - t < SCAN_COOLDOWN_DURATION"
  shows "addQRCode cl tx now d st = Inr (False, st)"
  using assms by (simp add: addQRCode_def)

lemma twice_within_window:
  assumes "fingerprint tx = Inr h" "t1 \<noteq> 0" "t2 - t1 < SCAN_COOLDOWN_DURATION"
  shows "uniqueResults (submitAt tx t2 (submitAt tx t1 initial_state)) =
           [(h, \<lparr>id_qr = h, text_qr = tx, firstSeen = t1, lastSeen = t1, count = 1\<rparr>)]"
  using assms by (simp add: aggregator_eval)

lemma twice_beyond_window:
  assumes "fingerprint tx = Inr h" "t2 - t1 > SCAN_COOLDOWN_DURATION"
  shows "uniqueResults (submitAt tx t2 (submitAt tx t1 initial_state)) =
           [(h, \<lparr>id_qr = h, text_qr = tx, firstSeen = t1, lastSeen = t2, count = 2\<rparr>)]"
  using assms by (simp add: aggregator_eval)

text \<open>
  The JavaScript test \<open>lastScanTime && ...\<close> reads a stored timestamp 0 as "no entry":
  under a clock that starts at 0 the scenario of the specification is accepted three
  times.
\<close>

lemma cooldown_scenario_from_zero:
  "addQRCode (recentScans (submitAt [0x58] 0 initial_state)) [0x58] 500 500
       (submitAt [0x58] 0 initial_state) =
     Inr (True, submitAt [0x58] 500 (submitAt [0x58] 0 initial_state)) \<and>
   uniqueResults (submitAt [0x58] 500 (submitAt [0x58] 0 initial_state)) =
     [(''WA'', \<lparr>id_qr = ''WA'', text_qr = [0x58], firstSeen = 0, lastSeen = 500, count = 2\<rparr>)] \<and>
   uniqueResults (submitAt [0x58] 3500 (submitAt [0x58] 500 (submitAt [0x58] 0 initial_state))) =
     [(''WA'', \<lparr>id_qr = ''WA'', text_qr = [0x58], firstSeen = 0, lastSeen = 3500, count = 3\<rparr>)]"
  by (simp add: aggregator_eval fingerprint_eval)

text \<open>
  C2: two submissions of the same text through one closure. The second call of
  \<open>addQRCode\<close> still reads the cooldown table of the render that created the callback,
  where the first submission is not recorded, so it is accepted although it comes 200 ms
  after the first: the entry ends with count 2 where the claim has count 1. The same
  happens inside one scan cycle whose decode returns the text twice (two codes with the
  same content in the guide).
\<close>

theorem same_closure_second_call_accepted:
  "fst (projr (addQRCode [] [0x58] 1700000000000 1700000000000 initial_state)) = True \<and>
   addQRCode [] [0x58] 1700000000200 1700000000200 (submitAt [0x58] 1700000000000 initial_state)
     = Inr (True, initial_state
              \<lparr>uniqueResults := [(''WA'', \<lparr>id_qr = ''WA'', text_qr = [0x58],
                   firstSeen = 1700000000000, lastSeen = 1700000000200, count = 2\<rparr>)],
               recentScans := [(''WA'', 1700000000200)]\<rparr>) \<and>
   uniqueResults (fst (scanQRCodes scanningState
       (portraitEnv (Resolved [\<lparr>text_rr = [0x58], position = Some (squareAt 150 250 40)\<rparr>,
                               \<lparr>text_rr = [0x58], position = Some (squareAt 150 350 40)\<rparr>])
          1700000000000)
       scanningState))
     = [(''WA'', \<lparr>id_qr = ''WA'', text_qr = [0x58], firstSeen = 1700000000000,
                  lastSeen = 1700000000000, count = 2\<rparr>)]"
  by (simp add: cycle_eval geometry_eval aggregator_eval fingerprint_eval)

theorem same_closure_second_call_accepted_witness:
  "cycleRuns scanningState
     (portraitEnv (Resolved [\<lparr>text_rr = [0x58], position = Some (squareAt 150 250 40)\<rparr>,
                             \<lparr>text_rr = [0x58], position = Some (squareAt 150 350 40)\<rparr>])
        1700000000000) \<and>
   map (count \<circ> snd) (uniqueResults (fst (scanQRCodes scanningState
       (portraitEnv (Resolved [\<lparr>text_rr = [0x58], position = Some (squareAt 150 250 40)\<rparr>,
                               \<lparr>text_rr = [0x58], position = Some (squareAt 150 350 40)\<rparr>])
          1700000000000)
       scanningState))) = [2]"
proof -
  have "cycleRuns scanningState
     (portraitEnv (Resolved [\<lparr>text_rr = [0x58], position = Some (squareAt 150 250 40)\<rparr>,
                             \<lparr>text_rr = [0x58], position = Some (squareAt 150 350 40)\<rparr>])
        1700000000000)"
    by (simp add: cycleRuns_def scanningState_def portraitEnv_def initial_state_def)
  moreover have "map (count \<circ> snd) (uniqueResults (fst (scanQRCodes scanningState
       (portraitEnv (Resolved [\<lparr>text_rr = [0x58], position = Some (squareAt 150 250 40)\<rparr>,
                               \<lparr>text_rr = [0x58], position = Some (squareAt 150 350 40)\<rparr>])
          1700000000000)
       scanningState))) = [2]"
    using same_closure_second_call_accepted by simp
  ultimately show ?thesis by (intro conjI)
qed

text \<open>
  C7: after an accepted submission at 1700000000000 the cooldown table holds the entry of
  the fingerprint, and 200 ms later \<open>now - lastSuppressedAt < SCAN_COOLDOWN_DURATION\<close>;
  a call through the closure of the earlier render (whose table is still empty) returns
  true and changes both maps.
\<close>

theorem fresh_table_entry_stale_closure_accepts:
  "map_of (recentScans (submitAt [0x58] 1700000000000 initial_state)) ''WA'' = Some 1700000000000 \<and>
   fingerprint [0x58] = Inr ''WA'' \<and>
   1700000000200 - 1700000000000 < SCAN_COOLDOWN_DURATION \<and>
   fst (projr (addQRCode [] [0x58] 1700000000200 1700000000200
                 (submitAt [0x58] 1700000000000 initial_state))) = True \<and>
   recentScans (snd (projr (addQRCode [] [0x58] 1700000000200 1700000000200
                 (submitAt [0x58] 1700000000000 initial_state)))) = [(''WA'', 1700000000200)] \<and>
   map (count \<circ> snd) (uniqueResults (snd (projr (addQRCode [] [0x58] 1700000000200 1700000000200
                 (submitAt [0x58] 1700000000000 initial_state))))) = [2]"
  by (simp add: aggregator_eval fingerprint_eval)

section \<open>The scan cycle: frame and interval lemmas\<close>



lemma submitAll_flag_nonempty:
  "submitAll cl clk k rs False st = (err, True, st') \<Longrightarrow> rs \<noteq> []"
  by (cases rs) auto

lemma processResults_accepted:
  assumes "submitAll (recentScans snap) (clock env) 0 (inGuideResults env rs) False st = (None, True, s1)"
  shows "processResults snap env rs st =
           (None,
            s1\<lparr>guideState := Success, lastScanTime := nowCycle env, scanInterval := SCAN_INTERVAL_MAX\<rparr>,
            [SetTimeout (SetGuideStateCb Scanning) 300,
             SetTimeout (SetScanIntervalCb SCAN_INTERVAL_DEFAULT) 2000])"
proof -
  from assms have ne: "inGuideResults env rs \<noteq> []" by (rule submitAll_flag_nonempty)
  then have "rs \<noteq> []" by (auto simp: inGuideResults_def)
  with ne assms show ?thesis by (simp add: processResults_def)
qed






lemma scanQRCodes_runs:
  assumes "cycleRuns snap env" "tryCatch snap env st = (s1, effs1)"
  shows "scanQRCodes snap env st =
           (s1\<lparr>scanInterval := adjustInterval (processingTime env) (scanInterval s1)\<rparr>,
            effs1 @ [SetTimeout RescheduleCb (scanInterval snap)])"
  using assms by (simp add: scanQRCodes_def cycleRuns_def)

section \<open>The interval controller\<close>



section \<open>The guide state\<close>

text \<open>
  C8: in a cycle that reaches the decoder, a decode timeout leaves the guide state (and
  everything but the scan interval) as it was and registers no timer besides the
  rescheduling; any other rejection sets the guide state to \<open>Error\<close> and registers the
  timer that sets it to \<open>Scanning\<close> after 1000 ms; an accepted in-guide detection sets
  it to \<open>Success\<close> and registers the timer that sets it to \<open>Scanning\<close> after 300 ms.
\<close>

theorem guide_state_after_decode:
  assumes "cycleRuns snap env"
  shows
   "(decodeOutcome env = Rejected readBarcodesTimeout \<longrightarrow>
       guideState (fst (scanQRCodes snap env st)) = guideState st \<and>
       fst (scanQRCodes snap env st) =
         st\<lparr>scanInterval := adjustInterval (processingTime env) (scanInterval st)\<rparr> \<and>
       snd (scanQRCodes snap env st) = [SetTimeout RescheduleCb (scanInterval snap)]) \<and>
    (decodeOutcome env = Rejected err \<and> err \<noteq> readBarcodesTimeout \<longrightarrow>
       guideState (fst (scanQRCodes snap env st)) = Error \<and>
       snd (scanQRCodes snap env st) =
         [SetTimeout (SetGuideStateCb Scanning) 1000,
          SetTimeout RescheduleCb (scanInterval snap)] \<and>
       guideState (runCallback (SetGuideStateCb Scanning) (fst (scanQRCodes snap env st))) =
         Scanning) \<and>
    (decodeOutcome env = Resolved rs \<and>
     submitAll (recentScans snap) (clock env) 0 (inGuideResults env rs) False st =
       (None, True, s1) \<longrightarrow>
       guideState (fst (scanQRCodes snap env st)) = Success \<and>
       snd (scanQRCodes snap env st) =
         [SetTimeout (SetGuideStateCb Scanning) 300,
          SetTimeout (SetScanIntervalCb SCAN_INTERVAL_DEFAULT) 2000,
          SetTimeout RescheduleCb (scanInterval snap)] \<and>
       guideState (runCallback (SetGuideStateCb Scanning) (fst (scanQRCodes snap env st))) =
         Scanning)"
proof (intro conjI impI)
  assume t: "decodeOutcome env = Rejected readBarcodesTimeout"
  then have tc: "tryCatch snap env st = (st, [])"
    by (simp add: tryCatch_def catchBlock_def)
  note sc = scanQRCodes_runs[OF assms tc]
  show "guideState (fst (scanQRCodes snap env st)) = guideState st" by (simp add: sc)
  show "fst (scanQRCodes snap env st) =
         st\<lparr>scanInterval := adjustInterval (processingTime env) (scanInterval st)\<rparr>"
    by (simp add: sc)
  show "snd (scanQRCodes snap env st) = [SetTimeout RescheduleCb (scanInterval snap)]"
    by (simp add: sc)
next
  assume f: "decodeOutcome env = Rejected err \<and> err \<noteq> readBarcodesTimeout"
  then have tc: "tryCatch snap env st =
      (st\<lparr>guideState := Error\<rparr>, [SetTimeout (SetGuideStateCb Scanning) 1000])"
    by (simp add: tryCatch_def catchBlock_def)
  note sc = scanQRCodes_runs[OF assms tc]
  show "guideState (fst (scanQRCodes snap env st)) = Error" by (simp add: sc)
  show "snd (scanQRCodes snap env st) =
         [SetTimeout (SetGuideStateCb Scanning) 1000,
          SetTimeout RescheduleCb (scanInterval snap)]"
    by (simp add: sc)
  show "guideState (runCallback (SetGuideStateCb Scanning) (fst (scanQRCodes snap env st))) =
         Scanning"
    by (simp add: runCallback_def)
next
  assume a: "decodeOutcome env = Resolved rs \<and>
     submitAll (recentScans snap) (clock env) 0 (inGuideResults env rs) False st =
       (None, True, s1)"
  note p = processResults_accepted[OF conjunct2[OF a]]
  from a have tc: "tryCatch snap env st =
       (s1\<lparr>guideState := Success, lastScanTime := nowCycle env, scanInterval := SCAN_INTERVAL_MAX\<rparr>,
        [SetTimeout (SetGuideStateCb Scanning) 300,
         SetTimeout (SetScanIntervalCb SCAN_INTERVAL_DEFAULT) 2000])"
    by (simp add: tryCatch_def p)
  note sc = scanQRCodes_runs[OF assms tc]
  show "guideState (fst (scanQRCodes snap env st)) = Success" by (simp add: sc)
  show "snd (scanQRCodes snap env st) =
         [SetTimeout (SetGuideStateCb Scanning) 300,
          SetTimeout (SetScanIntervalCb SCAN_INTERVAL_DEFAULT) 2000,
          SetTimeout RescheduleCb (scanInterval snap)]"
    by (simp add: sc)
  show "guideState (runCallback (SetGuideStateCb Scanning) (fst (scanQRCodes snap env st))) =
         Scanning"
    by (simp add: runCallback_def)
qed

theorem guide_state_after_decode_witness:
  "cycleRuns scanningState (portraitEnv (Rejected readBarcodesTimeout) 1700000000000) \<and>
   guideState (fst (scanQRCodes scanningState
      (portraitEnv (Rejected readBarcodesTimeout) 1700000000000) scanningState)) = Scanning \<and>
   JSError ''WASM out of memory'' \<noteq> readBarcodesTimeout \<and>
   guideState (fst (scanQRCodes scanningState
      (portraitEnv (Rejected (JSError ''WASM out of memory'')) 1700000000000) scanningState)) = Error \<and>
   snd (scanQRCodes scanningState
      (portraitEnv (Rejected (JSError ''WASM out of memory'')) 1700000000000) scanningState) =
     [SetTimeout (SetGuideStateCb Scanning) 1000, SetTimeout RescheduleCb 200] \<and>
   guideState (fst (scanQRCodes scanningState
      (portraitEnv (Resolved [\<lparr>text_rr = [0x58], position = Some (squareAt 150 300 40)\<rparr>])
         1700000000000) scanningState)) = Success \<and>
   snd (scanQRCodes scanningState
      (portraitEnv (Resolved [\<lparr>text_rr = [0x58], position = Some (squareAt 150 300 40)\<rparr>])
         1700000000000) scanningState) =
     [SetTimeout (SetGuideStateCb Scanning) 300, SetTimeout (SetScanIntervalCb 200) 2000,
      SetTimeout RescheduleCb 200]"
proof -
  let ?rs = "[\<lparr>text_rr = [0x58], position = Some (squareAt 150 300 40)\<rparr>]"
  let ?s1 = "scanningState\<lparr>recentScans := [(''WA'', 1700000000000)],
       uniqueResults := [(''WA'', \<lparr>id_qr = ''WA'', text_qr = [0x58], firstSeen = 1700000000000,
                                   lastSeen = 1700000000000, count = 1\<rparr>)]\<rparr>"
  have cr: "\<And>out. cycleRuns scanningState (portraitEnv out 1700000000000)"
    by (simp add: cycleRuns_def scanningState_def portraitEnv_def initial_state_def)
  have ne: "JSError ''WASM out of memory'' \<noteq> readBarcodesTimeout"
    by (simp add: readBarcodesTimeout_def)
  have i: "scanInterval scanningState = 200" "guideState scanningState = Scanning"
    by (simp_all add: scanningState_def initial_state_def SCAN_INTERVAL_DEFAULT_def)
  have sub: "submitAll (recentScans scanningState) (clock (portraitEnv (Resolved ?rs) 1700000000000)) 0
               (inGuideResults (portraitEnv (Resolved ?rs) 1700000000000) ?rs) False
               scanningState = (None, True, ?s1)"
    by (simp add: inGuideResults_def scanningState_def geometry_eval aggregator_eval fingerprint_eval)
  have d: "\<And>out. decodeOutcome (portraitEnv out 1700000000000) = out"
    by (simp add: portraitEnv_def)
  note t1 = guide_state_after_decode[where snap = scanningState and st = scanningState
              and env = "portraitEnv (Rejected readBarcodesTimeout) 1700000000000", OF cr]
  note t2 = guide_state_after_decode[where snap = scanningState and st = scanningState
              and env = "portraitEnv (Rejected (JSError ''WASM out of memory'')) 1700000000000"
              and err = "JSError ''WASM out of memory''", OF cr]
  note t3 = guide_state_after_decode[where snap = scanningState and st = scanningState
              and env = "portraitEnv (Resolved ?rs) 1700000000000" and rs = ?rs and ?s1.0 = ?s1,
              OF cr]
  have a: "guideState (fst (scanQRCodes scanningState
      (portraitEnv (Rejected readBarcodesTimeout) 1700000000000) scanningState)) = Scanning"
    using t1 d i by simp
  have b: "guideState (fst (scanQRCodes scanningState
      (portraitEnv (Rejected (JSError ''WASM out of memory'')) 1700000000000) scanningState)) = Error"
    "snd (scanQRCodes scanningState
      (portraitEnv (Rejected (JSError ''WASM out of memory'')) 1700000000000) scanningState) =
     [SetTimeout (SetGuideStateCb Scanning) 1000, SetTimeout RescheduleCb 200]"
    using t2 d ne i by simp_all
  have c: "guideState (fst (scanQRCodes scanningState
      (portraitEnv (Resolved ?rs) 1700000000000) scanningState)) = Success"
    "snd (scanQRCodes scanningState (portraitEnv (Resolved ?rs) 1700000000000) scanningState) =
     [SetTimeout (SetGuideStateCb Scanning) 300, SetTimeout (SetScanIntervalCb 200) 2000,
      SetTimeout RescheduleCb 200]"
    using t3 d sub i by (simp_all add: SCAN_INTERVAL_DEFAULT_def)
  from cr a ne b c show ?thesis by (intro conjI)
qed

section \<open>Which detections a cycle submits\<close>






section \<open>The spatial classification\<close>

text \<open>
  \<open>isQRInGuide\<close> takes bounds whose \<open>x\<close> and \<open>y\<close> are the left and top edge: a box whose
  middle is the guide's centre is inside, one whose middle is a guide width left of the
  guide is outside. The scan cycle passes the centre of the corners as \<open>x\<close> and \<open>y\<close>, so
  the point tested is the centroid moved by half the size of the code.
\<close>

lemma isQRInGuide_at_center:
  assumes "width_g guide > 0" "height_g guide > 0"
      and "x_b qrBounds + width_b qrBounds / 2 = left_g guide + width_g guide / 2"
      and "y_b qrBounds + height_b qrBounds / 2 = top_g guide + height_g guide / 2"
  shows "isQRInGuide qrBounds guide"
  using assms by (simp add: isQRInGuide_def GUIDE_TOLERANCE_def Let_def)

lemma isQRInGuide_far_left:
  assumes "width_g guide > 0"
      and "x_b qrBounds + width_b qrBounds / 2 = left_g guide - width_g guide"
  shows "\<not> isQRInGuide qrBounds guide"
  using assms by (simp add: isQRInGuide_def GUIDE_TOLERANCE_def Let_def)

lemma inGuide_tests_shifted_point:
  assumes "wrapperSize env = Some (cw, ch)" "position result = Some points"
  shows "inGuide env result \<longleftrightarrow>
           isQRInGuide (displayBounds env (cw, ch) points) (calculateGuideSize cw ch)"
  using assms by (simp add: inGuide_def)


section \<open>Reset\<close>

text \<open>
  C10: \<open>resetList\<close> empties the unique-results collection and the cooldown table and
  changes nothing else: the scanning flag, the guide state, the scan interval and the
  timestamp of the last accepted detection are as before, so a reset while scanning
  neither stops the loop nor touches the guide feedback.
\<close>

theorem resetList_frame:
  "resetList st = st\<lparr>uniqueResults := [], recentScans := []\<rparr> \<and>
   uniqueResults (resetList st) = [] \<and> recentScans (resetList st) = [] \<and>
   isScanning (resetList st) = isScanning st \<and>
   guideState (resetList st) = guideState st \<and>
   scanInterval (resetList st) = scanInterval st \<and>
   lastScanTime (resetList st) = lastScanTime st \<and>
   isInitialized (resetList st) = isInitialized st \<and>
   focusGuideOnly (resetList st) = focusGuideOnly st"
  by (simp add: resetList_def)

end
